theory Spec2Isabelle
  imports Main
begin

section \<open>Python strings\<close>

text \<open>
  A Python \<open>str\<close> is a sequence of Unicode code points: \<open>len\<close>, slicing, \<open>strip\<close>
  and the regular expressions of the program all count code points, and the section
  and key labels of the configuration format are Chinese. A string is therefore a list
  of code points; \<open>asc\<close> reads an ASCII literal.
\<close>

type_synonym pystr = "nat list"

abbreviation asc :: "string \<Rightarrow> pystr" where
  "asc s \<equiv> map of_char s"

text \<open>
  \<open>str.isspace\<close>, which \<open>str.strip()\<close>, \<open>str.split()\<close> and the pattern \<open>\s\<close> of
  \<open>re\<close> on \<open>str\<close> share: U+0009..U+000D, U+001C..U+0020, U+0085, U+00A0, U+1680,
  U+2000..U+200A, U+2028, U+2029, U+202F, U+205F, U+3000.
\<close>

definition is_space :: "nat \<Rightarrow> bool" where
  "is_space c \<longleftrightarrow>
     (9 \<le> c \<and> c \<le> 13) \<or> (28 \<le> c \<and> c \<le> 32) \<or> c = 133 \<or> c = 160 \<or> c = 5760 \<or>
     (8192 \<le> c \<and> c \<le> 8202) \<or> c = 8232 \<or> c = 8233 \<or> c = 8239 \<or> c = 8287 \<or>
     c = 12288"

text \<open>\<open>s.strip()\<close>\<close>

definition strip :: "pystr \<Rightarrow> pystr" where
  "strip s = rev (dropWhile is_space (rev (dropWhile is_space s)))"

text \<open>\<open>s.replace(a, b)\<close> for one-character \<open>a\<close> and \<open>b\<close>\<close>

definition replace_chr :: "nat \<Rightarrow> nat \<Rightarrow> pystr \<Rightarrow> pystr" where
  "replace_chr a b s = map (\<lambda>c. if c = a then b else c) s"

text \<open>\<open>s.startswith(p)\<close> and \<open>s.endswith(p)\<close>\<close>

fun startswith :: "pystr \<Rightarrow> pystr \<Rightarrow> bool" where
  "startswith s [] = True"
| "startswith [] (p # ps) = False"
| "startswith (c # cs) (p # ps) = (c = p \<and> startswith cs ps)"

definition endswith :: "pystr \<Rightarrow> pystr \<Rightarrow> bool" where
  "endswith s p = startswith (rev s) (rev p)"

text \<open>\<open>sub in s\<close> for a string \<open>sub\<close>; for one character it is \<open>c \<in> set s\<close>.\<close>

fun py_in :: "pystr \<Rightarrow> pystr \<Rightarrow> bool" where
  "py_in sub [] = (sub = [])"
| "py_in sub (c # cs) = (startswith (c # cs) sub \<or> py_in sub cs)"

text \<open>
  \<open>s.split(sep)\<close> with a separator: the occurrences of \<open>sep\<close> are found from left to
  right without overlap, and the pieces between them are returned, the empty ones
  too, so the result is never empty. (Python raises on an empty separator; the program
  only splits on \<^verbatim>\<open>'\n'\<close>, \<^verbatim>\<open>'||'\<close> and \<^verbatim>\<open>'|'\<close>.)
\<close>

function py_split :: "pystr \<Rightarrow> pystr \<Rightarrow> pystr list" where
  "py_split sep [] = [[]]"
| "py_split sep (c # cs) =
     (if sep \<noteq> [] \<and> startswith (c # cs) sep
      then [] # py_split sep (drop (length sep) (c # cs))
      else (case py_split sep cs of
              p # ps \<Rightarrow> (c # p) # ps
            | [] \<Rightarrow> [[c]]))"
  by pat_completeness auto
termination
  by (relation "measure (\<lambda>(sep, s). length s)") auto

text \<open>
  \<open>s.split(c, 1)\<close> where the program has checked \<open>c in s\<close>: exactly two pieces, the
  text before the first \<open>c\<close> and the text after it.
\<close>

definition split1 :: "nat \<Rightarrow> pystr \<Rightarrow> pystr \<times> pystr" where
  "split1 c s = (takeWhile (\<lambda>x. x \<noteq> c) s, tl (dropWhile (\<lambda>x. x \<noteq> c) s))"

text \<open>
  \<open>s.split()\<close> without a separator: the maximal runs of non-whitespace characters.
  \<open>cur\<close> is the run being read, reversed.
\<close>

fun split_ws_acc :: "pystr \<Rightarrow> pystr \<Rightarrow> pystr list" where
  "split_ws_acc cur [] = (if cur = [] then [] else [rev cur])"
| "split_ws_acc cur (c # cs) =
     (if is_space c
      then (if cur = [] then split_ws_acc [] cs else rev cur # split_ws_acc [] cs)
      else split_ws_acc (c # cur) cs)"

definition split_ws :: "pystr \<Rightarrow> pystr list" where
  "split_ws s = split_ws_acc [] s"

text \<open>\<open>str(n)\<close> for a non-negative integer: its decimal digits.\<close>

fun py_str :: "nat \<Rightarrow> pystr" where
  "py_str n = (if n < 10 then [48 + n] else py_str (n div 10) @ [48 + n mod 10])"

declare py_str.simps [simp del]

section \<open>build.py: sanitize_filename\<close>

text \<open>The character class \<^verbatim>\<open>[\\/*?:"<>|]\<close> of the pattern: \<^verbatim>\<open>\ / * ? : " < > |\<close>\<close>

definition forbidden :: "nat list" where
  "forbidden = [92, 47, 42, 63, 58, 34, 60, 62, 124]"

text \<open>\<^verbatim>\<open>re.sub(r'[\\/*?:"<>|]', '', s)\<close>: every character of the class is deleted.\<close>

definition re_sub_forbidden :: "pystr \<Rightarrow> pystr" where
  "re_sub_forbidden s = filter (\<lambda>c. c \<notin> set forbidden) s"

definition sanitize_filename :: "pystr \<Rightarrow> pystr" where
  "sanitize_filename filename =
     (let filename = re_sub_forbidden filename;
          filename = replace_chr 32 95 filename
      in if length filename > 100 then take 100 filename else filename)"

section \<open>templates/page\_template.py: the software record\<close>

text \<open>
  The program keeps a software entry in a \<open>dict\<close> whose keys are Chinese words:
  title, name, version, description, features, screenshots, download links and extra
  information. Each key is a field here, named by its translation, \<open>None\<close> when the
  key is absent. The renderer tests with \<open>isinstance\<close> whether the description and
  the extra information are a \<open>str\<close> or a \<open>list\<close>, and whether a screenshot or a
  link is a \<open>dict\<close> or a plain \<open>str\<close>; these are the alternatives of the datatypes.
\<close>

datatype text_value = Str pystr | Paras "pystr list"

datatype screenshot =
    ShotStr pystr
  | ShotDict (caption: "pystr option") (attribution: "pystr option") (url: "pystr option")

datatype link_info =
    LinkStr pystr
  | LinkDict (link_url: "pystr option") (link_code: "pystr option")

record software_info =
  title :: "pystr option"
  name :: "pystr option"
  version :: "pystr option"
  description :: "text_value option"
  features :: "pystr list option"
  screenshots :: "screenshot list option"
  download_links :: "link_info list option"
  extra_info :: "text_value option"

subsection \<open>The fixed labels of the configuration format\<close>

text \<open>
  The section names (lines 188, 207, 216, 241, 248) and the keys of the software
  information section (lines 194 to 200), as code points.
\<close>

definition sec_software_info :: pystr where
  "sec_software_info = [0x8F6F, 0x4EF6, 0x4FE1, 0x606F]"

definition sec_features :: pystr where
  "sec_features = [0x529F, 0x80FD, 0x4ECB, 0x7ECD]"

definition sec_screenshots :: pystr where
  "sec_screenshots = [0x8F6F, 0x4EF6, 0x622A, 0x56FE]"

definition sec_downloads :: pystr where
  "sec_downloads = [0x4E0B, 0x8F7D, 0x94FE, 0x63A5]"

definition sec_extra_info :: pystr where
  "sec_extra_info = [0x989D, 0x5916, 0x4FE1, 0x606F]"

definition key_title :: pystr where
  "key_title = [0x6807, 0x9898]"

definition key_name :: pystr where
  "key_name = [0x540D, 0x79F0]"

definition key_version :: pystr where
  "key_version = [0x7248, 0x672C]"

definition key_description :: pystr where
  "key_description = [0x63CF, 0x8FF0]"

text \<open>The three default texts: "unnamed software" (line 272), "unknown software"
  (line 287) and "error while parsing the configuration file" (line 289).\<close>

definition unnamed_software :: pystr where
  "unnamed_software = [0x672A, 0x547D, 0x540D, 0x8F6F, 0x4EF6]"

definition unknown_software :: pystr where
  "unknown_software = [0x672A, 0x77E5, 0x8F6F, 0x4EF6]"

definition parse_error_marker :: pystr where
  "parse_error_marker = [0x89E3, 0x6790, 0x914D, 0x7F6E, 0x6587, 0x4EF6, 0x51FA, 0x9519]"

section \<open>templates/page\_template.py: parse\_download\_line\<close>

text \<open>The empty \<open>dict\<close> that the function returns for a blank line is \<open>LinkDict None None\<close>.\<close>

definition parse_download_line :: "pystr \<Rightarrow> link_info" where
  "parse_download_line line0 =
     (let line = strip line0 in
      if line = [] then LinkDict None None
      else let parts = split_ws line in
        if length parts = 1 then LinkDict (Some (strip (parts ! 0))) (Some [])
        else if length parts \<ge> 2
          then LinkDict (Some (strip (parts ! 0))) (Some (strip (parts ! 1)))
        else LinkDict None None)"

section \<open>templates/page\_template.py: parse\_config\_file\<close>

text \<open>
  The local variables of the scan. The entries that the loop stores in the \<open>dict\<close>
  under construction are the first five fields, each with the shape the loop gives it:
  the extra information is only ever a list there.
\<close>

record scan_state =
  st_title :: "pystr option"
  st_name :: "pystr option"
  st_version :: "pystr option"
  st_description :: "text_value option"
  st_extra_info :: "pystr list option"
  current_section :: "pystr option"
  temp_downloads :: "link_info list"
  temp_features :: "pystr list"
  temp_screenshots :: "screenshot list"

definition init_state :: scan_state where
  "init_state = \<lparr>st_title = None, st_name = None, st_version = None, st_description = None,
     st_extra_info = None, current_section = None, temp_downloads = [], temp_features = [],
     temp_screenshots = []\<rparr>"

text \<open>Lines 188 to 205, the software information section: \<open>key = value\<close>.\<close>

definition description_value :: "pystr \<Rightarrow> text_value" where
  "description_value v =
     (if py_in (asc ''||'') v then Paras (map strip (py_split (asc ''||'') v)) else Str v)"

definition software_info_line :: "scan_state \<Rightarrow> pystr \<Rightarrow> scan_state" where
  "software_info_line st line =
     (if 61 \<in> set line then
        (let (k, v) = split1 61 line; key = strip k; v = strip v in
         if key = key_title then st\<lparr>st_title := Some v\<rparr>
         else if key = key_name then st\<lparr>st_name := Some v\<rparr>
         else if key = key_version then st\<lparr>st_version := Some v\<rparr>
         else if key = key_description then st\<lparr>st_description := Some (description_value v)\<rparr>
         else st)
      else st)"

text \<open>Lines 207 to 214, the feature section.\<close>

definition features_line :: "scan_state \<Rightarrow> pystr \<Rightarrow> scan_state" where
  "features_line st line =
     (if 61 \<in> set line
      then st\<lparr>temp_features := temp_features st @ [strip (snd (split1 61 line))]\<rparr>
      else st\<lparr>temp_features := temp_features st @ [strip line]\<rparr>)"

text \<open>Lines 216 to 239, the screenshot section.\<close>

definition screenshot_value :: "pystr \<Rightarrow> screenshot" where
  "screenshot_value v =
     (if 124 \<in> set v then
        (let parts = py_split [124] v in
         if length parts \<ge> 3
           then ShotDict (Some (strip (parts ! 0))) (Some (strip (parts ! 1)))
                  (Some (strip (parts ! 2)))
         else if length parts = 2
           then ShotDict (Some (strip (parts ! 0))) None (Some (strip (parts ! 1)))
         else ShotDict None None (Some v))
      else ShotDict None None (Some v))"

definition screenshots_line :: "scan_state \<Rightarrow> pystr \<Rightarrow> scan_state" where
  "screenshots_line st line =
     (if 61 \<in> set line
      then st\<lparr>temp_screenshots :=
                temp_screenshots st @ [screenshot_value (strip (snd (split1 61 line)))]\<rparr>
      else st)"

text \<open>Lines 241 to 246, the download link section.\<close>

definition downloads_line :: "scan_state \<Rightarrow> pystr \<Rightarrow> scan_state" where
  "downloads_line st line =
     (if line \<noteq> [] \<and> \<not> startswith line (asc ''#'') then
        (let link = parse_download_line line in
         if link \<noteq> LinkDict None None
         then st\<lparr>temp_downloads := temp_downloads st @ [link]\<rparr>
         else st)
      else st)"

text \<open>Lines 248 to 251, the extra information section.\<close>

definition extra_info_line :: "scan_state \<Rightarrow> pystr \<Rightarrow> scan_state" where
  "extra_info_line st line =
     st\<lparr>st_extra_info :=
          Some ((case st_extra_info st of None \<Rightarrow> [] | Some xs \<Rightarrow> xs) @ [line])\<rparr>"

text \<open>The body of the loop, lines 175 to 251.\<close>

definition scan_line :: "scan_state \<Rightarrow> pystr \<Rightarrow> scan_state" where
  "scan_line st raw =
     (let line = strip raw in
      if line = [] \<or> startswith line (asc ''#'') then st
      else if startswith line (asc ''['') \<and> endswith line (asc '']'')
        then st\<lparr>current_section := Some (strip (butlast (tl line)))\<rparr>
      else if current_section st = Some sec_software_info then software_info_line st line
      else if current_section st = Some sec_features then features_line st line
      else if current_section st = Some sec_screenshots then screenshots_line st line
      else if current_section st = Some sec_downloads then downloads_line st line
      else if current_section st = Some sec_extra_info then extra_info_line st line
      else st)"

text \<open>
  Lines 253 to 280: the collected lists are stored when they are not empty, then the
  defaults are filled in, each after the one before it. \<open>stem\<close> is
  \<open>config_path.stem\<close>; the name is read from the title with \<open>get\<close>, whose default
  is "unnamed software".
\<close>

definition finish :: "pystr \<Rightarrow> scan_state \<Rightarrow> software_info" where
  "finish stem st =
     (let title' = (case st_title st of
                      Some t \<Rightarrow> Some t
                    | None \<Rightarrow> (case st_name st of Some n \<Rightarrow> Some n | None \<Rightarrow> Some stem));
          name' = (case st_name st of
                     Some n \<Rightarrow> Some n
                   | None \<Rightarrow> Some (case title' of Some t \<Rightarrow> t | None \<Rightarrow> unnamed_software));
          version' = (case st_version st of Some v \<Rightarrow> Some v | None \<Rightarrow> Some (asc ''1.0.0''));
          description' = (case st_description st of Some d \<Rightarrow> Some d | None \<Rightarrow> Some (Str []))
      in \<lparr>title = title', name = name', version = version', description = description',
          features = (if temp_features st \<noteq> [] then Some (temp_features st) else None),
          screenshots =
            (if temp_screenshots st \<noteq> [] then Some (temp_screenshots st) else None),
          download_links =
            (if temp_downloads st \<noteq> [] then Some (temp_downloads st) else None),
          extra_info = map_option Paras (st_extra_info st)\<rparr>)"

text \<open>Lines 285 to 290: the record returned when the body raises.\<close>

definition fallback :: "pystr \<Rightarrow> software_info" where
  "fallback stem =
     \<lparr>title = Some stem, name = Some unknown_software, version = Some (asc ''1.0.0''),
      description = Some (Str parse_error_marker), features = None, screenshots = None,
      download_links = None, extra_info = None\<rparr>"

text \<open>
  Reading the file is the one step of the body that can raise (\<open>OSError\<close> from
  \<open>open\<close>, \<open>UnicodeDecodeError\<close> from \<open>read\<close>): after it the body works on strings
  with operations that are defined on every string, each unpacking of a
  \<open>split('=', 1)\<close> and each index into \<open>parts\<close> guarded by the test before it. The
  function therefore takes the outcome of the read, an error or the text that \<open>read\<close>
  returns, and \<open>config_path.stem\<close>.
\<close>

datatype read_error = OSError | UnicodeDecodeError

definition scan_lines :: "pystr list \<Rightarrow> scan_state" where
  "scan_lines lines = foldl scan_line init_state lines"

definition parse_config_file :: "read_error + pystr \<Rightarrow> pystr \<Rightarrow> software_info" where
  "parse_config_file src stem =
     (case src of
        Inl e \<Rightarrow> fallback stem
      | Inr content \<Rightarrow> finish stem (scan_lines (py_split [10] content)))"

text \<open>
  A line opens the section \<open>sec\<close> when the loop takes it for the header of \<open>sec\<close>
  (lines 176 to 185), and a text has the section when one of its lines opens it.
\<close>

definition opens_section :: "pystr \<Rightarrow> pystr \<Rightarrow> bool" where
  "opens_section sec raw =
     (let line = strip raw in
      \<not> (line = [] \<or> startswith line (asc ''#'')) \<and>
      startswith line (asc ''['') \<and> endswith line (asc '']'') \<and>
      strip (butlast (tl line)) = sec)"

definition has_section :: "pystr \<Rightarrow> pystr \<Rightarrow> bool" where
  "has_section sec content = list_ex (opens_section sec) (py_split [10] content)"

section \<open>templates/page\_template.py: generate\_wordpress\_content\<close>

text \<open>The headings of the five sections: introduction, features, screenshots, downloads
  and other information.\<close>

definition label_intro :: pystr where
  "label_intro = [0x8F6F, 0x4EF6, 0x4ECB, 0x7ECD]"

definition label_features :: pystr where
  "label_features = [0x529F, 0x80FD, 0xFF08, 0x4F7F, 0x7528, 0xFF09, 0x8BF4, 0x660E]"

definition label_screenshots :: pystr where
  "label_screenshots = [0x8F6F, 0x4EF6, 0x622A, 0x56FE]"

definition label_downloads :: pystr where
  "label_downloads = [0x8F6F, 0x4EF6, 0x4E0B, 0x8F7D]"

definition label_other_info :: pystr where
  "label_other_info = [0x5176, 0x4ED6, 0x4FE1, 0x606F]"

text \<open>The newline, the single quote and the double quote.\<close>

definition nl :: pystr where
  "nl = [10]"

definition sq :: pystr where
  "sq = [39]"

definition dq :: pystr where
  "dq = [34]"

definition h3 :: "pystr \<Rightarrow> pystr" where
  "h3 t = asc ''<h3>'' @ t @ asc ''</h3>'' @ nl"

definition p_block :: "pystr \<Rightarrow> pystr" where
  "p_block para = asc ''<p>'' @ para @ asc ''</p>'' @ nl"

definition li_block :: "pystr \<Rightarrow> pystr" where
  "li_block feature = asc '' <li>'' @ feature @ asc ''</li>'' @ nl"

text \<open>The truth value of a \<open>str\<close> or a \<open>list\<close> in a condition: it is not empty.\<close>

fun truthy :: "text_value \<Rightarrow> bool" where
  "truthy (Str s) = (s \<noteq> [])"
| "truthy (Paras ps) = (ps \<noteq> [])"

text \<open>
  Each function below returns the strings that one part of the function appends to
  \<open>html_parts\<close>, in order. Lines 26 to 37: the introduction.
\<close>

definition intro_parts :: "software_info \<Rightarrow> pystr list" where
  "intro_parts si =
     (let d = (case description si of Some d \<Rightarrow> d | None \<Rightarrow> Str []) in
      [h3 label_intro] @
      (if truthy d then
         (case d of
            Paras ps \<Rightarrow> map p_block ps
          | Str s \<Rightarrow> [p_block s])
       else []) @
      [nl])"

text \<open>Lines 40 to 47: the features.\<close>

definition feature_parts :: "software_info \<Rightarrow> pystr list" where
  "feature_parts si =
     (let fs = (case features si of Some fs \<Rightarrow> fs | None \<Rightarrow> []) in
      if fs \<noteq> []
      then [h3 label_features, asc ''<ol>'' @ nl] @ map li_block fs @ [asc ''</ol>'' @ nl, nl]
      else [])"

text \<open>Lines 50 to 74: the screenshots; \<open>i\<close> is the index that \<open>enumerate\<close> gives.\<close>

definition default_caption :: "nat \<Rightarrow> pystr" where
  "default_caption i = label_screenshots @ asc '' '' @ py_str (i + 1)"

definition screenshot_block :: "nat \<Rightarrow> screenshot \<Rightarrow> pystr list" where
  "screenshot_block i shot =
     (case shot of
        ShotDict c a u \<Rightarrow>
          (let cap = (case c of Some x \<Rightarrow> x | None \<Rightarrow> default_caption i);
               att = (case a of Some x \<Rightarrow> x | None \<Rightarrow> []);
               src = (case u of Some x \<Rightarrow> x | None \<Rightarrow> [])
           in [if att \<noteq> []
               then asc ''[insertimg caption='' @ sq @ cap @ sq @ asc '' attribution='' @ sq @
                    att @ sq @ asc '']''
               else asc ''[insertimg caption='' @ sq @ cap @ sq @ asc '']'',
               asc ''<img src='' @ dq @ src @ dq @ asc '' />'',
               asc ''[/insertimg]'' @ nl])
      | ShotStr s \<Rightarrow>
          [asc ''[insertimg caption='' @ sq @ default_caption i @ sq @ asc '']'',
           asc ''<img src='' @ dq @ s @ dq @ asc '' />'',
           asc ''[/insertimg]'' @ nl])"

fun screenshot_loop :: "nat \<Rightarrow> screenshot list \<Rightarrow> pystr list" where
  "screenshot_loop i [] = []"
| "screenshot_loop i (shot # shots) = screenshot_block i shot @ screenshot_loop (Suc i) shots"

definition screenshot_parts :: "software_info \<Rightarrow> pystr list" where
  "screenshot_parts si =
     (let shots = (case screenshots si of Some ss \<Rightarrow> ss | None \<Rightarrow> []) in
      if shots \<noteq> []
      then [h3 label_screenshots] @ screenshot_loop 0 shots @ [nl]
      else [])"

text \<open>Lines 77 to 104: the downloads.\<close>

definition link_shortcode :: "link_info \<Rightarrow> pystr" where
  "link_shortcode link =
     (let (u, code) =
            (case link of
               LinkDict u c \<Rightarrow>
                 (case u of Some x \<Rightarrow> x | None \<Rightarrow> [], case c of Some x \<Rightarrow> x | None \<Rightarrow> [])
             | LinkStr s \<Rightarrow> (s, []))
      in if code \<noteq> [] \<and> strip code \<noteq> []
         then asc '' [link url='' @ dq @ u @ dq @ asc '' code='' @ dq @ code @ dq @
              asc ''][/link]''
         else asc '' [link url='' @ dq @ u @ dq @ asc ''][/link]'')"

fun download_loop :: "nat \<Rightarrow> link_info list \<Rightarrow> pystr list" where
  "download_loop i [] = []"
| "download_loop i (link # links) =
     [link_shortcode link] @ (if (i + 1) mod 4 = 0 then [nl] else []) @
     download_loop (Suc i) links"

definition download_parts :: "software_info \<Rightarrow> pystr list" where
  "download_parts si =
     (let links = (case download_links si of Some ls \<Rightarrow> ls | None \<Rightarrow> []) in
      if links \<noteq> []
      then [h3 label_downloads, asc ''[downloads]'' @ nl] @ download_loop 0 links @
           (if length links mod 4 \<noteq> 0 then [nl] else []) @
           [asc ''[/downloads]'' @ nl]
      else [])"

text \<open>Lines 107 to 119: the extra information.\<close>

definition extra_parts :: "software_info \<Rightarrow> pystr list" where
  "extra_parts si =
     (let e = (case extra_info si of Some e \<Rightarrow> e | None \<Rightarrow> Str []) in
      if truthy e then
        (case e of
           Str s \<Rightarrow>
             if strip s \<noteq> [] then [nl, h3 label_other_info, p_block s] else []
         | Paras ps \<Rightarrow>
             if ps \<noteq> []
             then [nl, h3 label_other_info] @
                  map p_block (filter (\<lambda>para. para \<noteq> [] \<and> strip para \<noteq> []) ps)
             else [])
      else [])"

text \<open>Line 121: \<open>"".join(html_parts)\<close>.\<close>

definition generate_wordpress_content :: "software_info \<Rightarrow> pystr" where
  "generate_wordpress_content si =
     concat (intro_parts si @ feature_parts si @ screenshot_parts si @ download_parts si @
             extra_parts si)"

section \<open>build.py: generate\_pure\_content\<close>

text \<open>\<open>drop_prefix p s\<close> is the rest of \<open>s\<close> after its prefix \<open>p\<close>, if \<open>s\<close> starts with \<open>p\<close>.\<close>

fun drop_prefix :: "pystr \<Rightarrow> pystr \<Rightarrow> pystr option" where
  "drop_prefix [] s = Some s"
| "drop_prefix (p # ps) [] = None"
| "drop_prefix (p # ps) (c # cs) = (if p = c then drop_prefix ps cs else None)"

text \<open>
  A match of \<^verbatim>\<open>\n\n<p></p>\n?\<close> (\<open>ws\<close> false) or of \<^verbatim>\<open>\n\n<p>\s*</p>\n?\<close> (\<open>ws\<close>
  true) at the start of \<open>s\<close>, giving the text after the match. The greedy \<^verbatim>\<open>\s*\<close>
  takes every whitespace character, and taking fewer cannot match since \<^verbatim>\<open><\<close> is
  not one; the greedy \<^verbatim>\<open>\n?\<close> takes the newline when there is one.
\<close>

definition match_empty_p :: "bool \<Rightarrow> pystr \<Rightarrow> pystr option" where
  "match_empty_p ws s =
     (case drop_prefix (nl @ nl @ asc ''<p>'') s of
        None \<Rightarrow> None
      | Some r \<Rightarrow>
          (case drop_prefix (asc ''</p>'') (if ws then dropWhile is_space r else r) of
             None \<Rightarrow> None
           | Some r' \<Rightarrow> Some (case drop_prefix nl r' of Some r'' \<Rightarrow> r'' | None \<Rightarrow> r')))"

text \<open>
  \<open>re.sub(pattern, '', s)\<close> for these two patterns: the text is read from left to
  right, a match is deleted and the reading goes on after it, any other character is
  kept. (A match is never empty, so the guard on the length always holds.)
\<close>

function re_sub_empty_p :: "bool \<Rightarrow> pystr \<Rightarrow> pystr" where
  "re_sub_empty_p ws [] = []"
| "re_sub_empty_p ws (c # cs) =
     (case match_empty_p ws (c # cs) of
        Some r \<Rightarrow>
          if length r < length (c # cs) then re_sub_empty_p ws r
          else c # re_sub_empty_p ws cs
      | None \<Rightarrow> c # re_sub_empty_p ws cs)"
  by pat_completeness auto
termination
  by (relation "measure (\<lambda>(ws, s). length s)") auto

definition generate_pure_content :: "software_info \<Rightarrow> pystr" where
  "generate_pure_content si =
     (let wp_content = generate_wordpress_content si;
          e = (case extra_info si of Some e \<Rightarrow> e | None \<Rightarrow> Str [])
      in if \<not> truthy e \<or> (case e of Str s \<Rightarrow> strip s = [] | Paras ps \<Rightarrow> False)
         then re_sub_empty_p True (re_sub_empty_p False wp_content)
         else wp_content)"

section \<open>The file names derived from a title\<close>

text \<open>templates/page\_template.py, lines 295 to 330. \<open>config_stem\<close> is \<open>None\<close> when no
  \<open>config_path\<close> is given.\<close>

definition get_software_title :: "software_info \<Rightarrow> pystr option \<Rightarrow> pystr" where
  "get_software_title si config_stem =
     (let t = (case title si of Some t \<Rightarrow> t | None \<Rightarrow> []) in
      if t \<noteq> [] then replace_chr 32 95 (re_sub_forbidden t)
      else (case name si of
              Some n \<Rightarrow> replace_chr 32 95 (re_sub_forbidden n)
            | None \<Rightarrow> (case config_stem of Some s \<Rightarrow> s | None \<Rightarrow> asc ''software'')))"

text \<open>templates/page\_template.py, line 420: the file name that \<open>generate_html_embed\<close>
  shows in the preview document under "generated file".\<close>

definition embed_generated_file :: "software_info \<Rightarrow> pystr" where
  "embed_generated_file si =
     replace_chr 32 95 (case title si of Some t \<Rightarrow> t | None \<Rightarrow> asc ''software'') @
     asc ''.html''"

text \<open>build.py, lines 87 to 99: the name of the file that \<open>generate_html_file\<close> writes.\<close>

definition html_filename :: "software_info \<Rightarrow> pystr" where
  "html_filename si =
     sanitize_filename (case title si of Some t \<Rightarrow> t | None \<Rightarrow> asc ''software'') @
     asc ''.html''"

section \<open>Facts about the string operations\<close>

lemma set_strip_subset: "set (strip s) \<subseteq> set s"
  by (auto simp: strip_def dest!: set_dropWhileD)

lemma strip_ends:
  assumes "strip s \<noteq> []"
  shows "\<not> is_space (hd (strip s))" and "\<not> is_space (last (strip s))"
proof -
  let ?t = "dropWhile is_space s"
  let ?u = "dropWhile is_space (rev ?t)"
  from assms have u: "?u \<noteq> []" by (simp add: strip_def)
  then have "\<not> is_space (hd ?u)" by (rule hd_dropWhile)
  then show "\<not> is_space (last (strip s))"
    using u by (simp add: strip_def last_rev)
  have "rev ?t = takeWhile is_space (rev ?t) @ ?u" by simp
  then have "?t = rev ?u @ rev (takeWhile is_space (rev ?t))"
    by (metis rev_append rev_rev_ident)
  then have "hd ?t = hd (rev ?u)" using u
    by (metis hd_append2 rev_is_Nil_conv)
  moreover have "?t \<noteq> []"
  proof
    assume "?t = []"
    then have "?u = []" by (simp del: dropWhile_eq_Nil_conv)
    with u show False by contradiction
  qed
  then have "\<not> is_space (hd ?t)" by (rule hd_dropWhile)
  ultimately show "\<not> is_space (hd (strip s))" by (simp add: strip_def)
qed

lemma strip_fixed:
  assumes "s = [] \<or> (\<not> is_space (hd s) \<and> \<not> is_space (last s))"
  shows "strip s = s"
proof (cases "s = []")
  case True then show ?thesis by (simp add: strip_def)
next
  case False
  with assms have h: "\<not> is_space (hd s)" and l: "\<not> is_space (last s)" by auto
  from False h have "dropWhile is_space s = s" by (simp add: dropWhile_eq_self_iff)
  moreover from False l have "dropWhile is_space (rev s) = rev s"
    by (simp add: dropWhile_eq_self_iff hd_rev)
  ultimately show ?thesis by (simp add: strip_def)
qed

lemma strip_idem: "strip (strip s) = strip s"
  by (rule strip_fixed) (use strip_ends in blast)

text \<open>
  Splitting on a separator whose first character does not occur in the first piece cuts
  that piece off; a text without that character is a single piece.
\<close>

lemma startswith_append: "startswith (p @ r) p"
  by (induction p) simp_all

lemma py_split_piece:
  assumes "c \<notin> set a"
  shows "py_split (c # sep) (a @ (c # sep) @ rest) = a # py_split (c # sep) rest"
  using assms
proof (induction a)
  case Nil
  have "startswith ((c # sep) @ rest) (c # sep)" by (rule startswith_append)
  then show ?case by simp
next
  case (Cons x a)
  then have "x \<noteq> c" and "c \<notin> set a" by auto
  with Cons.IH show ?case by simp
qed

lemma py_split_last:
  assumes "c \<notin> set a"
  shows "py_split (c # sep) a = [a]"
  using assms by (induction a) auto

lemma py_in_append: "py_in p (a @ p @ rest)"
proof (induction a)
  case Nil
  show ?case
  proof (cases "p @ rest")
    case Nil then show ?thesis by simp
  next
    case (Cons x xs)
    then have "py_in p (x # xs)" using startswith_append[of p rest] by simp
    with Cons show ?thesis by simp
  qed
next
  case (Cons x a)
  then show ?case by simp
qed

lemma description_value_three:
  assumes "124 \<notin> set A" "124 \<notin> set B" "124 \<notin> set C"
  shows "description_value (A @ asc ''||'' @ B @ asc ''||'' @ C) =
         Paras [strip A, strip B, strip C]"
proof -
  have "py_split [124, 124] (A @ [124, 124] @ B @ [124, 124] @ C) =
          A # py_split [124, 124] (B @ [124, 124] @ C)"
    using assms(1) by (rule py_split_piece)
  also have "py_split [124, 124] (B @ [124, 124] @ C) = B # py_split [124, 124] C"
    using assms(2) by (rule py_split_piece)
  also have "py_split [124, 124] C = [C]"
    using assms(3) by (rule py_split_last)
  finally have "py_split [124, 124] (A @ [124, 124] @ B @ [124, 124] @ C) = [A, B, C]" .
  moreover have "py_in [124, 124] (A @ [124, 124] @ (B @ [124, 124] @ C))"
    by (rule py_in_append)
  ultimately show ?thesis
    by (simp add: description_value_def)
qed

lemma split1_key:
  assumes "c \<notin> set k"
  shows "split1 c (k @ c # v) = (k, v)"
  using assms by (simp add: split1_def takeWhile_append1 dropWhile_append3 takeWhile_tail dropWhile_append)

section \<open>Facts about the scan\<close>

text \<open>
  While no line opens the software information section, the scan is never in that
  section and stores none of its four keys.
\<close>

lemma scan_line_keeps_no_info:
  assumes "current_section st \<noteq> Some sec_software_info"
    and "st_title st = None \<and> st_name st = None \<and> st_version st = None \<and> st_description st = None"
    and "\<not> opens_section sec_software_info l"
  shows "current_section (scan_line st l) \<noteq> Some sec_software_info \<and>
         st_title (scan_line st l) = None \<and> st_name (scan_line st l) = None \<and>
         st_version (scan_line st l) = None \<and> st_description (scan_line st l) = None"
  using assms
  by (auto simp: scan_line_def opens_section_def Let_def features_line_def
      screenshots_line_def downloads_line_def extra_info_line_def)

lemma foldl_keeps_no_info:
  assumes "\<forall>l\<in>set ls. \<not> opens_section sec_software_info l"
    and "current_section st \<noteq> Some sec_software_info"
    and "st_title st = None \<and> st_name st = None \<and> st_version st = None \<and> st_description st = None"
  shows "current_section (foldl scan_line st ls) \<noteq> Some sec_software_info \<and>
         st_title (foldl scan_line st ls) = None \<and> st_name (foldl scan_line st ls) = None \<and>
         st_version (foldl scan_line st ls) = None \<and>
         st_description (foldl scan_line st ls) = None"
  using assms
proof (induction ls arbitrary: st)
  case Nil
  then show ?case by simp
next
  case (Cons l ls)
  have "\<not> opens_section sec_software_info l" using Cons.prems(1) by simp
  from scan_line_keeps_no_info[OF Cons.prems(2) Cons.prems(3) this]
  have "current_section (scan_line st l) \<noteq> Some sec_software_info"
    and "st_title (scan_line st l) = None \<and> st_name (scan_line st l) = None \<and>
         st_version (scan_line st l) = None \<and> st_description (scan_line st l) = None"
    by simp_all
  with Cons.IH[of "scan_line st l"] Cons.prems(1) show ?case by simp
qed

text \<open>
  A line leaves the extra information as it is, or appends its trimmed text, which is
  then not empty; so every entry stored stays non-blank.
\<close>

lemma scan_line_extra_cases:
  "st_extra_info (scan_line st l) = st_extra_info st \<or>
   (strip l \<noteq> [] \<and>
    st_extra_info (scan_line st l) =
      Some ((case st_extra_info st of None \<Rightarrow> [] | Some xs \<Rightarrow> xs) @ [strip l]))"
  by (simp add: scan_line_def Let_def software_info_line_def features_line_def
      screenshots_line_def downloads_line_def extra_info_line_def split: prod.splits)

lemma scan_line_extra_nonblank:
  assumes "\<forall>xs. st_extra_info st = Some xs \<longrightarrow> (\<forall>e\<in>set xs. strip e \<noteq> [])"
  shows "\<forall>xs. st_extra_info (scan_line st l) = Some xs \<longrightarrow> (\<forall>e\<in>set xs. strip e \<noteq> [])"
proof -
  consider "st_extra_info (scan_line st l) = st_extra_info st"
    | "strip l \<noteq> []" "st_extra_info (scan_line st l) =
        Some ((case st_extra_info st of None \<Rightarrow> [] | Some xs \<Rightarrow> xs) @ [strip l])"
    using scan_line_extra_cases by blast
  then show ?thesis
  proof cases
    case 1
    with assms show ?thesis by simp
  next
    case 2
    from 2(1) have "strip (strip l) \<noteq> []" by (simp add: strip_idem)
    with assms 2(2) show ?thesis
      by (cases "st_extra_info st") auto
  qed
qed

lemma foldl_extra_nonblank:
  assumes "\<forall>xs. st_extra_info st = Some xs \<longrightarrow> (\<forall>e\<in>set xs. strip e \<noteq> [])"
  shows "\<forall>xs. st_extra_info (foldl scan_line st ls) = Some xs \<longrightarrow>
           (\<forall>e\<in>set xs. strip e \<noteq> [])"
  using assms
proof (induction ls arbitrary: st)
  case Nil
  then show ?case by simp
next
  case (Cons l ls)
  from scan_line_extra_nonblank[OF Cons.prems]
  have "\<forall>xs. st_extra_info (scan_line st l) = Some xs \<longrightarrow> (\<forall>e\<in>set xs. strip e \<noteq> [])" .
  from Cons.IH[OF this] show ?case by simp
qed

lemma software_info_line_description:
  assumes "61 \<notin> set k" and "strip k = key_description"
  shows "st_description (software_info_line st (k @ 61 # v)) =
         Some (description_value (strip v))"
  using assms
  by (simp add: software_info_line_def split1_key key_description_def key_title_def
      key_name_def key_version_def)

text \<open>What the screenshot section makes of a value with three parts and with two.\<close>

lemma screenshots_line_value:
  assumes "61 \<notin> set k"
  shows "temp_screenshots (screenshots_line st (k @ 61 # v)) =
         temp_screenshots st @ [screenshot_value (strip v)]"
  using assms by (simp add: screenshots_line_def split1_key)

lemma screenshot_value_three:
  assumes "124 \<notin> set c" and "124 \<notin> set a" and "124 \<notin> set u"
  shows "screenshot_value (c @ [124] @ a @ [124] @ u) =
         ShotDict (Some (strip c)) (Some (strip a)) (Some (strip u))"
proof -
  have "py_split [124] (c @ [124] @ a @ [124] @ u) = c # py_split [124] (a @ [124] @ u)"
    using assms(1) by (rule py_split_piece)
  also have "py_split [124] (a @ [124] @ u) = a # py_split [124] u"
    using assms(2) by (rule py_split_piece)
  also have "py_split [124] u = [u]"
    using assms(3) by (rule py_split_last)
  finally show ?thesis by (simp add: screenshot_value_def)
qed

lemma screenshot_value_two:
  assumes "124 \<notin> set c" and "124 \<notin> set u"
  shows "screenshot_value (c @ [124] @ u) = ShotDict (Some (strip c)) None (Some (strip u))"
proof -
  have "py_split [124] (c @ [124] @ u) = c # py_split [124] u"
    using assms(1) by (rule py_split_piece)
  also have "py_split [124] u = [u]"
    using assms(2) by (rule py_split_last)
  finally show ?thesis by (simp add: screenshot_value_def)
qed

section \<open>Facts about the download loop\<close>

lemma link_shortcode_not_nl: "link_shortcode l \<noteq> nl"
  by (simp add: link_shortcode_def nl_def Let_def split: link_info.splits option.splits prod.splits)

lemma download_loop_breaks:
  assumes "links \<noteq> []"
  shows "download_loop i links @ (if (i + length links) mod 4 \<noteq> 0 then [nl] else []) =
         concat (map (\<lambda>(k, l). link_shortcode l #
                        (if (k + 1) mod 4 = 0 \<or> k + 1 = i + length links then [nl] else []))
                     (enumerate i links))"
  using assms
proof (induction links arbitrary: i)
  case Nil
  then show ?case by simp
next
  case (Cons l ls)
  show ?case
  proof (cases ls)
    case Nil
    then show ?thesis by simp
  next
    case (Cons l' ls')
    then have "ls \<noteq> []" by simp
    from Cons.IH[OF this, of "Suc i"] \<open>ls \<noteq> []\<close> show ?thesis by simp
  qed
qed

lemma download_loop_shortcodes:
  "filter (\<lambda>p. p \<noteq> nl) (download_loop i links) = map link_shortcode links"
  by (induction links arbitrary: i) (simp_all add: link_shortcode_not_nl)

section \<open>Properties\<close>

text \<open>
  C8. For every input string, \<open>sanitize_filename\<close> deletes exactly the characters
  \<^verbatim>\<open>\ / : * ? " < > |\<close>, turns every space into an underscore and keeps at most the
  first 100 characters of the result: its output is the first 100 characters of the
  input with the nine characters filtered out and the spaces replaced, it holds none of
  the nine characters and no space, and it is at most 100 characters long. In
  particular \<open>sanitize_filename "My:App?Name 2024" = "MyAppName_2024"\<close>.
\<close>

theorem sanitize_filename_spec:
  "sanitize_filename s =
     take 100 (map (\<lambda>c. if c = 32 then 95 else c) (filter (\<lambda>c. c \<notin> set forbidden) s))
   \<and> set (sanitize_filename s) \<inter> (set forbidden \<union> {32}) = {}
   \<and> length (sanitize_filename s) \<le> 100
   \<and> sanitize_filename (asc ''My:App?Name 2024'') = asc ''MyAppName_2024''"
proof -
  let ?t = "map (\<lambda>c. if c = 32 then 95 else c) (filter (\<lambda>c. c \<notin> set forbidden) s)"
  have eq: "sanitize_filename s = take 100 ?t"
    by (simp add: sanitize_filename_def re_sub_forbidden_def replace_chr_def Let_def)
  have "set ?t \<inter> (set forbidden \<union> {32}) = {}"
    by (auto simp: forbidden_def)
  moreover have "set (take 100 ?t) \<subseteq> set ?t"
    by (rule set_take_subset)
  ultimately have clean: "set (sanitize_filename s) \<inter> (set forbidden \<union> {32}) = {}"
    unfolding eq by blast
  have len: "length (sanitize_filename s) \<le> 100"
    unfolding eq by simp
  have ex: "sanitize_filename (asc ''My:App?Name 2024'') = asc ''MyAppName_2024''"
    by (simp add: sanitize_filename_def re_sub_forbidden_def replace_chr_def forbidden_def)
  from eq clean len ex show ?thesis by blast
qed

theorem sanitize_filename_spec_witness:
  "sanitize_filename (asc ''a b:c'') = asc ''a_bc''"
  using sanitize_filename_spec [of "asc ''a b:c''"]
  by (simp add: forbidden_def)

text \<open>
  C2, as the code has it. For every configuration text without a line that opens the
  software information section, \<open>parse_config_file\<close> returns a record whose title is
  \<open>config_path.stem\<close>, whose name is that same stem (line 272 copies the title, which
  line 268 has just set), whose version is \<open>1.0.0\<close> and whose description is the
  empty string.
\<close>

theorem parse_without_software_info:
  assumes "\<not> has_section sec_software_info content"
  shows "title (parse_config_file (Inr content) stem) = Some stem \<and>
         name (parse_config_file (Inr content) stem) = Some stem \<and>
         version (parse_config_file (Inr content) stem) = Some (asc ''1.0.0'') \<and>
         description (parse_config_file (Inr content) stem) = Some (Str [])"
proof -
  from assms have "\<forall>l\<in>set (py_split [10] content). \<not> opens_section sec_software_info l"
    by (simp add: has_section_def list_ex_iff)
  from foldl_keeps_no_info[OF this, of init_state]
  have "st_title (scan_lines (py_split [10] content)) = None \<and>
        st_name (scan_lines (py_split [10] content)) = None \<and>
        st_version (scan_lines (py_split [10] content)) = None \<and>
        st_description (scan_lines (py_split [10] content)) = None"
    by (simp add: scan_lines_def init_state_def)
  then show ?thesis
    by (simp add: parse_config_file_def finish_def Let_def)
qed

theorem parse_without_software_info_witness:
  "\<not> has_section sec_software_info (asc ''# nothing'') \<and>
   name (parse_config_file (Inr (asc ''# nothing'')) (asc ''app'')) = Some (asc ''app'')"
  using parse_without_software_info [of "asc ''# nothing''" "asc ''app''"]
  by (simp add: has_section_def opens_section_def strip_def is_space_def)

text \<open>
  C2 as the claim states it fails: for the empty configuration text and the stem
  \<open>app\<close> the name is \<open>app\<close>, neither the "unknown software" of the fallback record
  nor the "unnamed software" default of line 272.
\<close>

theorem name_default_counterexample:
  "\<not> has_section sec_software_info [] \<and>
   name (parse_config_file (Inr []) (asc ''app'')) = Some (asc ''app'') \<and>
   name (parse_config_file (Inr []) (asc ''app'')) \<noteq> Some unknown_software \<and>
   name (parse_config_file (Inr []) (asc ''app'')) \<noteq> Some unnamed_software"
  by (simp add: has_section_def opens_section_def strip_def parse_config_file_def
      scan_lines_def scan_line_def init_state_def finish_def unknown_software_def
      unnamed_software_def Let_def)

text \<open>
  C4. When reading the file raises, \<open>parse_config_file\<close> returns the fallback record:
  the title is \<open>config_path.stem\<close>, the name is "unknown software", the version is
  \<open>1.0.0\<close>, the description is the error marker and no other key is set; the
  renderer turns that record into the introduction heading with the marker as its one
  paragraph. (On a text that was read, the function returns the record built by the
  scan: no step after the read can raise, so it returns a record on every input.)
\<close>

theorem parse_error_returns_fallback:
  "parse_config_file (Inl err) stem =
     \<lparr>title = Some stem, name = Some unknown_software, version = Some (asc ''1.0.0''),
      description = Some (Str parse_error_marker), features = None, screenshots = None,
      download_links = None, extra_info = None\<rparr>
   \<and> generate_wordpress_content (parse_config_file (Inl err) stem) =
       h3 label_intro @ p_block parse_error_marker @ nl"
  by (simp add: parse_config_file_def fallback_def generate_wordpress_content_def
      intro_parts_def feature_parts_def screenshot_parts_def download_parts_def
      extra_parts_def parse_error_marker_def)

theorem parse_error_returns_fallback_witness:
  "title (parse_config_file (Inl OSError) (asc ''app'')) = Some (asc ''app'') \<and>
   name (parse_config_file (Inl OSError) (asc ''app'')) = Some unknown_software"
  using parse_error_returns_fallback [of OSError "asc ''app''"]
  by simp

text \<open>
  C9. A line without \<open>=\<close> never adds a screenshot. In the screenshot section such a
  line, unless it is a section header, leaves the whole state of the scan as it was, so
  scanning a file with the line gives the same result as scanning it without the line.
  In the feature section the same line, when it is neither blank, a comment nor a
  header, is appended as a feature, trimmed.
\<close>

theorem line_without_eq_no_screenshot:
  assumes "61 \<notin> set line"
  shows "temp_screenshots (scan_line st line) = temp_screenshots st \<and>
    (current_section st = Some sec_screenshots \<and>
     \<not> (startswith (strip line) (asc ''['') \<and> endswith (strip line) (asc '']''))
       \<longrightarrow> scan_line st line = st) \<and>
    (current_section (scan_lines pre) = Some sec_screenshots \<and>
     \<not> (startswith (strip line) (asc ''['') \<and> endswith (strip line) (asc '']''))
       \<longrightarrow> scan_lines (pre @ line # post) = scan_lines (pre @ post)) \<and>
    (current_section st = Some sec_features \<and> strip line \<noteq> [] \<and>
     \<not> startswith (strip line) (asc ''#'') \<and>
     \<not> (startswith (strip line) (asc ''['') \<and> endswith (strip line) (asc '']''))
       \<longrightarrow> temp_features (scan_line st line) = temp_features st @ [strip line])"
proof -
  from assms have ne: "61 \<notin> set (strip line)"
    using set_strip_subset by blast
  have a: "temp_screenshots (scan_line st line) = temp_screenshots st"
    using ne
    by (simp add: scan_line_def Let_def software_info_line_def features_line_def
        screenshots_line_def downloads_line_def extra_info_line_def)
  have b: "scan_line s line = s" if "current_section s = Some sec_screenshots"
    "\<not> (startswith (strip line) (asc ''['') \<and> endswith (strip line) (asc '']''))" for s
    using ne that
    by (auto simp: scan_line_def Let_def screenshots_line_def sec_screenshots_def
        sec_software_info_def sec_features_def)
  have c: "scan_lines (pre @ line # post) = scan_lines (pre @ post)"
    if "current_section (scan_lines pre) = Some sec_screenshots"
    "\<not> (startswith (strip line) (asc ''['') \<and> endswith (strip line) (asc '']''))"
    using b[of "foldl scan_line init_state pre"] that
    by (simp add: scan_lines_def)
  have d: "temp_features (scan_line st line) = temp_features st @ [strip line]"
    if "current_section st = Some sec_features" "strip line \<noteq> []"
      "\<not> startswith (strip line) (asc ''#'')"
      "\<not> (startswith (strip line) (asc ''['') \<and> endswith (strip line) (asc '']''))"
    using ne that
    by (auto simp: scan_line_def Let_def features_line_def sec_features_def
        sec_software_info_def strip_idem)
  from a b[of st] c d show ?thesis by blast
qed

theorem line_without_eq_no_screenshot_witness:
  "(61::nat) \<notin> set (asc ''shot.png'') \<and>
   scan_lines [asc ''['' @ sec_screenshots @ asc '']'', asc ''shot.png'', asc ''1 = a.png''] =
     scan_lines [asc ''['' @ sec_screenshots @ asc '']'', asc ''1 = a.png''] \<and>
   temp_features (scan_line (init_state\<lparr>current_section := Some sec_features\<rparr>)
     (asc ''shot.png'')) = [asc ''shot.png'']"
proof -
  have e: "(61::nat) \<notin> set (asc ''shot.png'')" by simp
  have s: "strip (asc ''shot.png'') = asc ''shot.png''"
    by (simp add: strip_def is_space_def)
  have p: "current_section (scan_lines [asc ''['' @ sec_screenshots @ asc '']'']) =
             Some sec_screenshots"
    by (simp add: scan_lines_def scan_line_def init_state_def strip_def is_space_def
        endswith_def sec_screenshots_def Let_def)
  from line_without_eq_no_screenshot [OF e,
      of "init_state\<lparr>current_section := Some sec_features\<rparr>"
         "[asc ''['' @ sec_screenshots @ asc '']'']" "[asc ''1 = a.png'']"]
  show ?thesis using e s p by (simp add: init_state_def)
qed

text \<open>
  C10. In every record that \<open>parse_config_file\<close> returns, the extra information, when
  present, is a list whose entries are all non-empty after trimming. (The fallback
  record has no extra information.)
\<close>

theorem parsed_extra_info_nonblank:
  assumes "extra_info (parse_config_file src stem) = Some e"
  shows "\<exists>xs. e = Paras xs \<and> (\<forall>x\<in>set xs. strip x \<noteq> [])"
proof (cases src)
  case (Inl err)
  with assms show ?thesis by (simp add: parse_config_file_def fallback_def)
next
  case (Inr content)
  have "\<forall>xs. st_extra_info (foldl scan_line init_state (py_split [10] content)) = Some xs \<longrightarrow>
          (\<forall>e\<in>set xs. strip e \<noteq> [])"
    by (rule foldl_extra_nonblank) (simp add: init_state_def)
  with assms Inr show ?thesis
    by (auto simp: parse_config_file_def finish_def scan_lines_def Let_def)
qed

theorem parsed_extra_info_nonblank_witness:
  "extra_info (parse_config_file
      (Inr (asc ''['' @ sec_extra_info @ asc '']'' @ [10] @ asc '' hello '' @ [10] @ [10]))
      (asc ''app'')) = Some (Paras [asc ''hello'']) \<and>
   (\<exists>xs. Paras [asc ''hello''] = Paras xs \<and> (\<forall>x\<in>set xs. strip x \<noteq> []))"
proof -
  have "extra_info (parse_config_file
      (Inr (asc ''['' @ sec_extra_info @ asc '']'' @ [10] @ asc '' hello '' @ [10] @ [10]))
      (asc ''app'')) = Some (Paras [asc ''hello''])"
    by (simp add: parse_config_file_def scan_lines_def scan_line_def init_state_def finish_def
      strip_def is_space_def endswith_def extra_info_line_def sec_extra_info_def
      sec_software_info_def sec_features_def sec_screenshots_def sec_downloads_def Let_def)
  from this parsed_extra_info_nonblank [OF this] show ?thesis by blast
qed

text \<open>
  C5. When the description value is \<open>A||B||C\<close>, with no \<open>|\<close> inside \<open>A\<close>, \<open>B\<close> and
  \<open>C\<close>, the introduction is the heading, then exactly three paragraph blocks holding
  \<open>A\<close>, \<open>B\<close> and \<open>C\<close> trimmed, in this order, then the separating newline. This
  holds for any record whose description is what line 203 makes of that value, and for
  the record built right after the software information section reads a line
  \<open>key = value\<close> whose trimmed key is the description key and whose trimmed value is
  \<open>A||B||C\<close>.
\<close>

theorem description_three_paragraphs:
  assumes "124 \<notin> set A" and "124 \<notin> set B" and "124 \<notin> set C"
  shows "(description si = Some (description_value (A @ asc ''||'' @ B @ asc ''||'' @ C))
            \<longrightarrow> intro_parts si =
                [h3 label_intro, p_block (strip A), p_block (strip B), p_block (strip C), nl])
       \<and> (61 \<notin> set k \<and> strip k = key_description \<and>
          strip v = A @ asc ''||'' @ B @ asc ''||'' @ C
            \<longrightarrow> intro_parts (finish stem (software_info_line st (k @ 61 # v))) =
                [h3 label_intro, p_block (strip A), p_block (strip B), p_block (strip C), nl])"
proof -
  have d: "description_value (A @ asc ''||'' @ B @ asc ''||'' @ C) =
           Paras [strip A, strip B, strip C]"
    using assms by (rule description_value_three)
  have r: "intro_parts s =
             [h3 label_intro, p_block (strip A), p_block (strip B), p_block (strip C), nl]"
    if "description s = Some (Paras [strip A, strip B, strip C])" for s
    using that by (simp add: intro_parts_def)
  have "description (finish stem (software_info_line st (k @ 61 # v))) =
          Some (Paras [strip A, strip B, strip C])"
    if "61 \<notin> set k" "strip k = key_description"
       "strip v = A @ asc ''||'' @ B @ asc ''||'' @ C"
    using software_info_line_description[OF that(1) that(2), of st v] that(3) d
    by (simp add: finish_def Let_def)
  with r d show ?thesis by simp
qed

theorem description_three_paragraphs_witness:
  "intro_parts (finish (asc ''app'')
       (software_info_line init_state (key_description @ asc '' = A||B ||C''))) =
     [h3 label_intro, p_block (asc ''A''), p_block (asc ''B''), p_block (asc ''C''), nl]"
proof -
  have a: "(124::nat) \<notin> set (asc ''A'')" "(124::nat) \<notin> set (asc ''B '')"
    "(124::nat) \<notin> set (asc ''C'')" by simp_all
  have k: "(61::nat) \<notin> set (key_description @ asc '' '')"
    "strip (key_description @ asc '' '') = key_description"
    by (simp_all add: key_description_def strip_def is_space_def)
  have v: "strip (asc '' A||B ||C'') = asc ''A'' @ asc ''||'' @ asc ''B '' @ asc ''||'' @ asc ''C''"
    by (simp add: strip_def is_space_def)
  have s: "strip (asc ''A'') = asc ''A''" "strip (asc ''B '') = asc ''B''"
    "strip (asc ''C'') = asc ''C''"
    by (simp_all add: strip_def is_space_def)
  from description_three_paragraphs [OF a, of "\<lparr>title = None, name = None, version = None,
      description = None, features = None, screenshots = None, download_links = None,
      extra_info = None\<rparr>" "key_description @ asc '' ''" "asc '' A||B ||C''" "asc ''app''" init_state]
  show ?thesis using k v s by simp
qed

text \<open>
  C6. For a record with a non-empty list of download links, the downloads block is the
  heading, the opening short-code, then one link short-code per link in order, where the
  \<open>k\<close>-th link (counted from 1) is followed by a line break exactly when \<open>k\<close> is a
  multiple of 4 or \<open>k\<close> is the number of links, then the closing short-code. Leaving
  the line breaks out gives the short-codes of the links, in order. For five links
  without codes the block has five link short-codes, a line break after the fourth and
  one after the fifth.
\<close>

theorem downloads_block_line_breaks:
  assumes "download_links si = Some links" and "links \<noteq> []"
  shows "download_parts si =
           [h3 label_downloads, asc ''[downloads]'' @ nl] @
           concat (map (\<lambda>(k, l). link_shortcode l #
                          (if (k + 1) mod 4 = 0 \<or> k + 1 = length links then [nl] else []))
                       (enumerate 0 links)) @
           [asc ''[/downloads]'' @ nl]
       \<and> filter (\<lambda>p. p \<noteq> nl)
            (concat (map (\<lambda>(k, l). link_shortcode l #
                          (if (k + 1) mod 4 = 0 \<or> k + 1 = length links then [nl] else []))
                       (enumerate 0 links))) = map link_shortcode links
       \<and> (links = [LinkDict (Some u1) (Some []), LinkDict (Some u2) (Some []),
                   LinkDict (Some u3) (Some []), LinkDict (Some u4) (Some []),
                   LinkDict (Some u5) (Some [])]
            \<longrightarrow> download_parts si =
                 [h3 label_downloads, asc ''[downloads]'' @ nl,
                  asc '' [link url='' @ dq @ u1 @ dq @ asc ''][/link]'',
                  asc '' [link url='' @ dq @ u2 @ dq @ asc ''][/link]'',
                  asc '' [link url='' @ dq @ u3 @ dq @ asc ''][/link]'',
                  asc '' [link url='' @ dq @ u4 @ dq @ asc ''][/link]'',
                  nl,
                  asc '' [link url='' @ dq @ u5 @ dq @ asc ''][/link]'',
                  nl,
                  asc ''[/downloads]'' @ nl])"
proof -
  let ?body = "concat (map (\<lambda>(k, l). link_shortcode l #
                          (if (k + 1) mod 4 = 0 \<or> k + 1 = length links then [nl] else []))
                       (enumerate 0 links))"
  have body: "download_loop 0 links @ (if length links mod 4 \<noteq> 0 then [nl] else []) = ?body"
    using download_loop_breaks[OF assms(2), of 0] by simp
  have parts: "download_parts si =
      [h3 label_downloads, asc ''[downloads]'' @ nl] @
      (download_loop 0 links @ (if length links mod 4 \<noteq> 0 then [nl] else [])) @
      [asc ''[/downloads]'' @ nl]"
    using assms by (simp add: download_parts_def)
  have a: "download_parts si =
      [h3 label_downloads, asc ''[downloads]'' @ nl] @ ?body @ [asc ''[/downloads]'' @ nl]"
    unfolding parts body ..
  have "filter (\<lambda>p. p \<noteq> nl)
          (download_loop 0 links @ (if length links mod 4 \<noteq> 0 then [nl] else [])) =
        map link_shortcode links"
    by (simp add: download_loop_shortcodes)
  then have b: "filter (\<lambda>p. p \<noteq> nl) ?body = map link_shortcode links"
    unfolding body .
  have c: "download_parts si =
                 [h3 label_downloads, asc ''[downloads]'' @ nl,
                  asc '' [link url='' @ dq @ u1 @ dq @ asc ''][/link]'',
                  asc '' [link url='' @ dq @ u2 @ dq @ asc ''][/link]'',
                  asc '' [link url='' @ dq @ u3 @ dq @ asc ''][/link]'',
                  asc '' [link url='' @ dq @ u4 @ dq @ asc ''][/link]'',
                  nl,
                  asc '' [link url='' @ dq @ u5 @ dq @ asc ''][/link]'',
                  nl,
                  asc ''[/downloads]'' @ nl]"
    if "links = [LinkDict (Some u1) (Some []), LinkDict (Some u2) (Some []),
                   LinkDict (Some u3) (Some []), LinkDict (Some u4) (Some []),
                   LinkDict (Some u5) (Some [])]"
    unfolding parts using that
    by (simp add: link_shortcode_def mod_Suc)
  from a b c show ?thesis by blast
qed

theorem downloads_block_line_breaks_witness:
  "download_parts \<lparr>title = None, name = None, version = None, description = None,
      features = None, screenshots = None,
      download_links = Some [LinkDict (Some (asc ''u1'')) (Some []),
        LinkDict (Some (asc ''u2'')) (Some []), LinkDict (Some (asc ''u3'')) (Some []),
        LinkDict (Some (asc ''u4'')) (Some []), LinkDict (Some (asc ''u5'')) (Some [])],
      extra_info = None\<rparr> =
     [h3 label_downloads, asc ''[downloads]'' @ nl,
      asc '' [link url='' @ dq @ asc ''u1'' @ dq @ asc ''][/link]'',
      asc '' [link url='' @ dq @ asc ''u2'' @ dq @ asc ''][/link]'',
      asc '' [link url='' @ dq @ asc ''u3'' @ dq @ asc ''][/link]'',
      asc '' [link url='' @ dq @ asc ''u4'' @ dq @ asc ''][/link]'',
      nl,
      asc '' [link url='' @ dq @ asc ''u5'' @ dq @ asc ''][/link]'',
      nl,
      asc ''[/downloads]'' @ nl]"
proof -
  let ?links = "[LinkDict (Some (asc ''u1'')) (Some []),
        LinkDict (Some (asc ''u2'')) (Some []), LinkDict (Some (asc ''u3'')) (Some []),
        LinkDict (Some (asc ''u4'')) (Some []), LinkDict (Some (asc ''u5'')) (Some [])]"
  let ?si = "\<lparr>title = None, name = None, version = None, description = None,
      features = None, screenshots = None, download_links = Some ?links,
      extra_info = None\<rparr>"
  have h1: "download_links ?si = Some ?links" by simp
  have h2: "?links \<noteq> []" by simp
  show ?thesis
    by (rule downloads_block_line_breaks
          [OF h1 h2, THEN conjunct2, THEN conjunct2, THEN mp, OF refl])
qed

text \<open>
  C7, as the code has it. For a screenshot value \<open>Cap|Attr|URL\<close>, with no \<open>|\<close>
  inside the three parts, the parser builds a screenshot with the trimmed \<open>Cap\<close> as
  caption, the trimmed \<open>Attr\<close> as attribution and the trimmed \<open>URL\<close> as url, and the
  renderer emits one block: the opening short-code with that caption and, when the
  trimmed attribution is not empty, that attribution, the image tag whose \<open>src\<close> is the
  url, and the closing short-code. With two parts the screenshot has the caption and the
  url and the block carries the caption only. With one part the screenshot has only the
  url, and the block takes the default caption, the screenshot label followed by the
  1-based index. The screenshot section stores what this makes of the trimmed text after
  the first \<open>=\<close> of the line.
\<close>

theorem screenshot_value_blocks:
  assumes "124 \<notin> set c" and "124 \<notin> set a" and "124 \<notin> set u"
  shows "screenshot_value (c @ asc ''|'' @ a @ asc ''|'' @ u) =
           ShotDict (Some (strip c)) (Some (strip a)) (Some (strip u))
       \<and> screenshot_block i (screenshot_value (c @ asc ''|'' @ a @ asc ''|'' @ u)) =
           [if strip a \<noteq> []
            then asc ''[insertimg caption='' @ sq @ strip c @ sq @ asc '' attribution='' @ sq @
                 strip a @ sq @ asc '']''
            else asc ''[insertimg caption='' @ sq @ strip c @ sq @ asc '']'',
            asc ''<img src='' @ dq @ strip u @ dq @ asc '' />'',
            asc ''[/insertimg]'' @ nl]
       \<and> screenshot_value (c @ asc ''|'' @ u) = ShotDict (Some (strip c)) None (Some (strip u))
       \<and> screenshot_block i (screenshot_value (c @ asc ''|'' @ u)) =
           [asc ''[insertimg caption='' @ sq @ strip c @ sq @ asc '']'',
            asc ''<img src='' @ dq @ strip u @ dq @ asc '' />'',
            asc ''[/insertimg]'' @ nl]
       \<and> screenshot_value u = ShotDict None None (Some u)
       \<and> screenshot_block i (screenshot_value u) =
           [asc ''[insertimg caption='' @ sq @ label_screenshots @ asc '' '' @ py_str (i + 1) @
            sq @ asc '']'',
            asc ''<img src='' @ dq @ u @ dq @ asc '' />'',
            asc ''[/insertimg]'' @ nl]
       \<and> (61 \<notin> set k \<longrightarrow>
            temp_screenshots (screenshots_line st (k @ 61 # v)) =
              temp_screenshots st @ [screenshot_value (strip v)])"
proof -
  have three: "screenshot_value (c @ asc ''|'' @ a @ asc ''|'' @ u) =
      ShotDict (Some (strip c)) (Some (strip a)) (Some (strip u))"
    using screenshot_value_three[OF assms] by simp
  have two: "screenshot_value (c @ asc ''|'' @ u) =
      ShotDict (Some (strip c)) None (Some (strip u))"
    using screenshot_value_two[OF assms(1) assms(3)] by simp
  have one: "screenshot_value u = ShotDict None None (Some u)"
    using assms(3) by (simp add: screenshot_value_def)
  have line: "61 \<notin> set k \<longrightarrow>
            temp_screenshots (screenshots_line st (k @ 61 # v)) =
              temp_screenshots st @ [screenshot_value (strip v)]"
    by (simp add: screenshots_line_value)
  show ?thesis
    unfolding three two one using line
    by (simp add: screenshot_block_def default_caption_def)
qed

theorem screenshot_value_blocks_witness:
  "screenshot_block 0 (screenshot_value (asc ''Cap|Attr|http://x/y.png'')) =
     [asc ''[insertimg caption='' @ sq @ asc ''Cap'' @ sq @ asc '' attribution='' @ sq @
      asc ''Attr'' @ sq @ asc '']'',
      asc ''<img src='' @ dq @ asc ''http://x/y.png'' @ dq @ asc '' />'',
      asc ''[/insertimg]'' @ nl]"
proof -
  have n: "(124::nat) \<notin> set (asc ''Cap'')" "(124::nat) \<notin> set (asc ''Attr'')"
    "(124::nat) \<notin> set (asc ''http://x/y.png'')" by simp_all
  have s: "strip (asc ''Cap'') = asc ''Cap''" "strip (asc ''Attr'') = asc ''Attr''"
    "strip (asc ''http://x/y.png'') = asc ''http://x/y.png''"
    by (simp_all add: strip_def is_space_def)
  note screenshot_value_blocks [where i = 0, OF n, THEN conjunct2, THEN conjunct1]
  then show ?thesis using s by simp
qed

text \<open>
  C7 as the claim states it fails when the middle part is blank: for \<open>Cap||URL\<close> the
  screenshot has the empty attribution, and the block carries the caption only, since
  line 61 emits the attribution only when it is not empty.
\<close>

theorem blank_attribution_counterexample:
  "attribution (screenshot_value (asc ''Cap||http://x/y.png'')) = Some [] \<and>
   screenshot_block 0 (screenshot_value (asc ''Cap||http://x/y.png'')) =
     [asc ''[insertimg caption='' @ sq @ asc ''Cap'' @ sq @ asc '']'',
      asc ''<img src='' @ dq @ asc ''http://x/y.png'' @ dq @ asc '' />'',
      asc ''[/insertimg]'' @ nl]"
  by (simp add: screenshot_value_def screenshot_block_def strip_def is_space_def)

text \<open>
  C1. The code does not keep this claim. For a record whose extra information is a
  non-empty list with only blank entries, the renderer still appends the separating
  newline and the "other information" heading (line 114 tests that the list is not
  empty, not that it has content, unlike line 110 for a string), and
  \<open>generate_pure_content\<close> returns the rendered text unchanged, since its test on
  line 65 does not hold for a non-empty list: the output ends with the heading.
\<close>

theorem blank_extra_info_heading:
  assumes "extra_info si = Some (Paras ps)" and "ps \<noteq> []"
    and "\<forall>p\<in>set ps. strip p = []"
  shows "extra_parts si = [nl, h3 label_other_info] \<and>
         generate_pure_content si = generate_wordpress_content si \<and>
         generate_pure_content si =
           concat (intro_parts si @ feature_parts si @ screenshot_parts si @
                   download_parts si) @ nl @ h3 label_other_info"
proof -
  from assms(3) have "filter (\<lambda>para. para \<noteq> [] \<and> strip para \<noteq> []) ps = []"
    by (simp add: filter_empty_conv)
  with assms(1,2) have e: "extra_parts si = [nl, h3 label_other_info]"
    by (simp add: extra_parts_def)
  from assms(1,2) have g: "generate_pure_content si = generate_wordpress_content si"
    by (simp add: generate_pure_content_def)
  from e g show ?thesis
    by (simp add: generate_wordpress_content_def)
qed

theorem blank_extra_info_heading_witness:
  "generate_pure_content \<lparr>title = Some (asc ''app''), name = Some (asc ''app''),
      version = Some (asc ''1.0.0''), description = Some (Str []), features = None,
      screenshots = None, download_links = None,
      extra_info = Some (Paras [asc '' ''])\<rparr> =
     h3 label_intro @ nl @ nl @ h3 label_other_info"
proof -
  let ?si = "\<lparr>title = Some (asc ''app''), name = Some (asc ''app''),
      version = Some (asc ''1.0.0''), description = Some (Str []), features = None,
      screenshots = None, download_links = None,
      extra_info = Some (Paras [asc '' ''])\<rparr>"
  have a: "extra_info ?si = Some (Paras [asc '' ''])" by simp
  have b: "[asc '' ''] \<noteq> []" by simp
  have c: "\<forall>p\<in>set [asc '' '']. strip p = []" by (simp add: strip_def is_space_def)
  note blank_extra_info_heading [OF a b c, THEN conjunct2, THEN conjunct2]
  then show ?thesis
    by (simp add: intro_parts_def feature_parts_def screenshot_parts_def download_parts_def)
qed

text \<open>
  C3. The code does not keep this claim. For the title \<open>a:b\<close>,
  \<open>sanitize_filename\<close> and \<open>get_software_title\<close> give \<open>ab\<close> and the file written is
  \<open>ab.html\<close>, but the preview document shows \<open>a:b.html\<close> as the generated file: line
  420 only replaces spaces. For a title of 101 letters \<open>sanitize_filename\<close> keeps 100
  of them and \<open>get_software_title\<close> all 101.
\<close>

theorem filename_derivations_disagree:
  "sanitize_filename (asc ''a:b'') = asc ''ab'' \<and>
   get_software_title \<lparr>title = Some (asc ''a:b''), name = Some (asc ''a:b''),
      version = Some (asc ''1.0.0''), description = Some (Str []), features = None,
      screenshots = None, download_links = None, extra_info = None\<rparr> None = asc ''ab'' \<and>
   html_filename \<lparr>title = Some (asc ''a:b''), name = Some (asc ''a:b''),
      version = Some (asc ''1.0.0''), description = Some (Str []), features = None,
      screenshots = None, download_links = None, extra_info = None\<rparr> = asc ''ab.html'' \<and>
   embed_generated_file \<lparr>title = Some (asc ''a:b''), name = Some (asc ''a:b''),
      version = Some (asc ''1.0.0''), description = Some (Str []), features = None,
      screenshots = None, download_links = None, extra_info = None\<rparr> = asc ''a:b.html'' \<and>
   length (sanitize_filename (replicate 101 97)) = 100 \<and>
   length (get_software_title \<lparr>title = Some (replicate 101 97), name = None,
      version = None, description = None, features = None,
      screenshots = None, download_links = None, extra_info = None\<rparr> None) = 101"
  by (simp add: sanitize_filename_def get_software_title_def html_filename_def
      embed_generated_file_def re_sub_forbidden_def replace_chr_def forbidden_def)

end
